theory Spec2Isabelle
  imports Main "HOL-Library.Sublist"
begin

section \<open>The build plugin \<open>plugins/lualib_bundle_fixer.js\<close>\<close>

text \<open>
  The repository holds TypeScript declaration files and one piece of executable code, the
  TypeScriptToLua plugin \<open>lualib_bundle_fixer.js\<close>, whose hook
  \<open>beforeEmit(program, options, emitHost, result)\<close> edits the array \<open>result\<close> of
  files about to be written. This theory embeds that hook.

  JavaScript strings are modelled as \<open>string\<close>; the hook only compares, concatenates and
  matches a fixed ASCII prefix. The array \<open>result\<close> is modelled as a list of records, one per
  array slot: the hook mutates the array and its elements in place and returns nothing, so
  the model returns the final contents of the array. The entries of \<open>result\<close> are taken to be
  pairwise distinct objects, as the transpiler creates one object per emitted file.
\<close>

subsection \<open>Data\<close>

text \<open>
  An element of \<open>result\<close> (TypeScriptToLua's \<open>EmitFile\<close>). The hook reads and writes
  \<open>outputPath\<close> and \<open>code\<close> only; every other field (source map, source files, ...) is
  the record's extension and is carried along.
\<close>

record emit_file =
  outputPath :: string
  code :: string

text \<open>
  The imported \<open>cc-ts-config.json\<close>: \<open>generate_lualib_bundle\<close> is a boolean and
  \<open>custom_lualib_bundle_name\<close> an optional string (\<open>None\<close> when the key is missing).
\<close>

record config =
  generate_lualib_bundle :: bool
  custom_lualib_bundle_name :: "string option"

text \<open>
  The compiler options. Only \<open>outDir\<close> is read (an optional string); all other options are
  the record's extension.
\<close>

record compiler_options =
  outDir :: "string option"

datatype error = AssertionError

text \<open>
  Node's \<open>path\<close> module, as far as the hook uses it. Which functions these are depends on
  the platform and, for \<open>path.resolve\<close>, on the working directory of the process, so the
  hook is modelled relative to a value of this record; \<open>posix\<close> below is the module on a
  POSIX system. Each function returns a string for every string argument (Node raises only
  for arguments that are not strings).
\<close>

record path_api =
  path_resolve :: "string \<Rightarrow> string"
  path_dirname :: "string \<Rightarrow> string"
  path_basename :: "string \<Rightarrow> string"
  path_join :: "string \<Rightarrow> string \<Rightarrow> string"

subsection \<open>JavaScript built-ins used by the hook\<close>

text \<open>
  \<open>assert(value)\<close> for an optional string: it throws an \<open>AssertionError\<close> unless the
  value is truthy, and \<open>undefined\<close> and the empty string are falsy.
\<close>

fun assert :: "string option \<Rightarrow> error + string" where
  "assert None = Inl AssertionError"
| "assert (Some s) = (if s \<noteq> [] then Inr s else Inl AssertionError)"

text \<open>
  \<open>Array.prototype.findIndex\<close>: the index of the first element satisfying the predicate,
  and \<open>-1\<close> when there is none.
\<close>

fun findIndex_from :: "('a \<Rightarrow> bool) \<Rightarrow> 'a list \<Rightarrow> int \<Rightarrow> int" where
  "findIndex_from p [] k = - 1"
| "findIndex_from p (x # xs) k = (if p x then k else findIndex_from p xs (k + 1))"

definition findIndex :: "('a \<Rightarrow> bool) \<Rightarrow> 'a list \<Rightarrow> int" where
  "findIndex p xs = findIndex_from p xs 0"

text \<open>
  \<open>Array.prototype.splice(start, deleteCount)\<close> without inserted items: the contents of
  the array after the call. A negative \<open>start\<close> counts from the end of the array. (The
  constant is called \<open>splice_js\<close> because the list library has a \<open>splice\<close> of its own.)
\<close>

definition splice_js :: "int \<Rightarrow> int \<Rightarrow> 'a list \<Rightarrow> 'a list" where
  "splice_js start deleteCount xs =
     (let len = int (length xs);
          actualStart = (if start < 0 then max (len + start) 0 else min start len);
          actualDeleteCount = min (max deleteCount 0) (len - actualStart)
      in take (nat actualStart) xs @ drop (nat (actualStart + actualDeleteCount)) xs)"

text \<open>
  The replacement text of \<open>String.prototype.replace\<close> (ECMAScript's \<open>GetSubstitution\<close>)
  for a regular expression without capture groups: in the replacement template \<open>$$\<close> stands
  for \<open>$\<close>, \<open>$&\<close> for the matched text, \<open>$`\<close> for the text before the match and
  \<open>$'\<close> for the text after it; every other character, and a \<open>$\<close> followed by anything
  else, is copied.
\<close>

fun GetSubstitution :: "string \<Rightarrow> string \<Rightarrow> string \<Rightarrow> string \<Rightarrow> string" where
  "GetSubstitution matched preceding following [] = []"
| "GetSubstitution matched preceding following [c] = [c]"
| "GetSubstitution matched preceding following (c # d # r) =
     (if c = CHR ''$'' then
        (if d = CHR ''$'' then CHR ''$'' # GetSubstitution matched preceding following r
         else if d = CHR 0x60 then preceding @ GetSubstitution matched preceding following r
         else if d = CHR ''&'' then matched @ GetSubstitution matched preceding following r
         else if d = CHR 0x27 then following @ GetSubstitution matched preceding following r
         else c # GetSubstitution matched preceding following (d # r))
      else c # GetSubstitution matched preceding following (d # r))"

text \<open>The line the transpiler puts at the top of a file that uses the bundle.\<close>

definition lualib_require_line :: string where
  \<open>lualib_require_line = ''local ____lualib = require("lualib_bundle")'' @ [CHR 0x0A]\<close>

text \<open>The replacement template built by the hook's template literal.\<close>

definition require_template :: "string \<Rightarrow> string" where
  \<open>require_template name = ''local ____lualib = require("'' @ name @ ''")'' @ [CHR 0x0A]\<close>

text \<open>
  \<open>code.replace(/^local ____lualib = require\("lualib_bundle"\)\n/, template)\<close>. The
  regular expression has no flags: \<open>^\<close> matches at the start of the string only and at
  most one match is replaced, so the call rewrites the string exactly when it starts with
  \<open>lualib_require_line\<close>.
\<close>

definition replace_require :: "string \<Rightarrow> string \<Rightarrow> string" where
  "replace_require name src =
     (if prefix lualib_require_line src then
        (let rest = drop (length lualib_require_line) src
         in GetSubstitution lualib_require_line [] rest (require_template name) @ rest)
      else src)"

subsection \<open>Node's \<open>path\<close> module on POSIX\<close>

text \<open>
  The functions of \<open>path.posix\<close> that the hook calls, following Node's \<open>lib/path.js\<close>.
  \<open>segments\<close> splits a path at every \<open>/\<close>.
\<close>

fun segments :: "string \<Rightarrow> string list" where
  "segments [] = [[]]"
| "segments (c # cs) =
     (if c = CHR ''/'' then [] # segments cs
      else (case segments cs of [] \<Rightarrow> [[c]] | s # ss \<Rightarrow> (c # s) # ss))"

text \<open>
  One step of \<open>normalizeString\<close>: empty and \<open>.\<close> segments are dropped, \<open>..\<close> removes the
  segment before it (or is kept when there is none to remove and the path is relative).
  The segments kept so far are held last-first.
\<close>

fun normalize_step :: "bool \<Rightarrow> string \<Rightarrow> string list \<Rightarrow> string list" where
  "normalize_step allowAboveRoot seg res =
     (if seg = [] \<or> seg = ''.'' then res
      else if seg = ''..'' then
        (case res of
           [] \<Rightarrow> if allowAboveRoot then [''..''] else []
         | t # ts \<Rightarrow> if t \<noteq> ''..'' then ts
                     else if allowAboveRoot then ''..'' # res else res)
      else seg # res)"

fun join_segments :: "string list \<Rightarrow> string" where
  "join_segments [] = []"
| "join_segments [s] = s"
| "join_segments (s # t # ss) = s @ ''/'' @ join_segments (t # ss)"

definition normalizeString :: "string \<Rightarrow> bool \<Rightarrow> string" where
  "normalizeString p allowAboveRoot =
     join_segments (rev (fold (normalize_step allowAboveRoot) (segments p) []))"

definition isAbsolute :: "string \<Rightarrow> bool" where
  "isAbsolute p = (case p of [] \<Rightarrow> False | c # _ \<Rightarrow> c = CHR ''/'')"

text \<open>\<open>path.resolve(p)\<close> with one argument, in a process whose working directory is \<open>cwd\<close>.\<close>

definition posix_resolve :: "string \<Rightarrow> string \<Rightarrow> string" where
  "posix_resolve cwd p =
     (let resolvedPath = (if p = [] then [] else p @ ''/'');
          resolvedAbsolute = isAbsolute p;
          resolvedPath' = (if \<not> resolvedAbsolute \<and> cwd \<noteq> [] then cwd @ ''/'' @ resolvedPath
                           else resolvedPath);
          resolvedAbsolute' = (if \<not> resolvedAbsolute \<and> cwd \<noteq> [] then isAbsolute cwd
                               else resolvedAbsolute);
          normalized = normalizeString resolvedPath' (\<not> resolvedAbsolute')
      in if resolvedAbsolute' then ''/'' @ normalized
         else if normalized \<noteq> [] then normalized else ''.'')"

text \<open>
  \<open>path.dirname(p)\<close>: the path up to the \<open>/\<close> before its last segment; the scan from the
  right skips trailing slashes and never looks at the first character.
\<close>

definition posix_dirname :: "string \<Rightarrow> string" where
  "posix_dirname p =
     (if p = [] then ''.''
      else
        (let hasRoot = (hd p = CHR ''/'');
             scanned = dropWhile (\<lambda>c. c \<noteq> CHR ''/'') (dropWhile (\<lambda>c. c = CHR ''/'') (rev (tl p)));
             end_idx = length scanned
         in if scanned = [] then (if hasRoot then ''/'' else ''.'')
            else if hasRoot \<and> end_idx = 1 then ''//''
            else take end_idx p))"

text \<open>\<open>path.basename(p)\<close>: the last segment of the path, trailing slashes ignored.\<close>

definition posix_basename :: "string \<Rightarrow> string" where
  "posix_basename p =
     rev (takeWhile (\<lambda>c. c \<noteq> CHR ''/'') (dropWhile (\<lambda>c. c = CHR ''/'') (rev p)))"

definition posix_normalize :: "string \<Rightarrow> string" where
  "posix_normalize p =
     (if p = [] then ''.''
      else
        (let absolute = isAbsolute p;
             trailingSeparator = (last p = CHR ''/'');
             normalized = normalizeString p (\<not> absolute)
         in if normalized = [] then
              (if absolute then ''/'' else if trailingSeparator then ''./'' else ''.'')
            else (if absolute then ''/'' else []) @ normalized
                 @ (if trailingSeparator then ''/'' else [])))"

text \<open>\<open>path.join(a, b)\<close>: the non-empty arguments joined by \<open>/\<close>, then normalised.\<close>

definition posix_join :: "string \<Rightarrow> string \<Rightarrow> string" where
  "posix_join a b =
     (if a = [] \<and> b = [] then ''.''
      else if a = [] then posix_normalize b
      else if b = [] then posix_normalize a
      else posix_normalize (a @ ''/'' @ b))"

definition posix :: "string \<Rightarrow> path_api" where
  "posix cwd =
     \<lparr>path_resolve = posix_resolve cwd, path_dirname = posix_dirname,
      path_basename = posix_basename, path_join = posix_join\<rparr>"

subsection \<open>The hook\<close>

text \<open>
  The test both parts of the hook apply to a file: its resolved path lies directly in
  \<open>out_dir\<close> and is called \<open>lualib_bundle.lua\<close>.
\<close>

definition is_lualib_bundle :: "path_api \<Rightarrow> string \<Rightarrow> ('a emit_file_scheme) \<Rightarrow> bool" where
  "is_lualib_bundle P out_dir f =
     (let file_path = path_resolve P (outputPath f)
      in path_dirname P file_path = out_dir \<and> path_basename P file_path = ''lualib_bundle.lua'')"

text \<open>
  The index-based removal of the first part: \<open>findIndex\<close> with the test above, then
  \<open>result.splice(idx, 1)\<close>.
\<close>

definition remove_lualib_bundle ::
  "path_api \<Rightarrow> string \<Rightarrow> ('a emit_file_scheme) list \<Rightarrow> ('a emit_file_scheme) list" where
  "remove_lualib_bundle P out_dir result =
     (let idx = findIndex (is_lualib_bundle P out_dir) result
      in splice_js idx 1 result)"

text \<open>
  The first part, \<open>if (!config.generate_lualib_bundle) { ... }\<close>: the assertion, the
  resolved output directory and the removal.
\<close>

definition removal_step ::
  "path_api \<Rightarrow> config \<Rightarrow> ('o compiler_options_scheme) \<Rightarrow> ('a emit_file_scheme) list
     \<Rightarrow> error + ('a emit_file_scheme) list" where
  "removal_step P cfg options result =
     (if \<not> generate_lualib_bundle cfg then
        (case assert (outDir options) of
           Inl e \<Rightarrow> Inl e
         | Inr d \<Rightarrow>
             (let out_dir = path_resolve P d
              in Inr (remove_lualib_bundle P out_dir result)))
      else Inr result)"

text \<open>The loop \<open>for (const file of result) { ... }\<close> of the second part.\<close>

fun rename_loop ::
  "path_api \<Rightarrow> string \<Rightarrow> string \<Rightarrow> ('a emit_file_scheme) list \<Rightarrow> ('a emit_file_scheme) list" where
  "rename_loop P out_dir name [] = []"
| "rename_loop P out_dir name (file # files) =
     (if is_lualib_bundle P out_dir file
      then file\<lparr>outputPath := path_join P out_dir (name @ ''.lua'')\<rparr>
      else file\<lparr>code := replace_require name (code file)\<rparr>)
     # rename_loop P out_dir name files"

text \<open>
  The second part, \<open>if (config.custom_lualib_bundle_name) { ... }\<close>: it runs when the
  name is truthy, that is, present and not the empty string; then the assertion, the
  resolved output directory and the loop.
\<close>

definition rename_step ::
  "path_api \<Rightarrow> config \<Rightarrow> ('o compiler_options_scheme) \<Rightarrow> ('a emit_file_scheme) list
     \<Rightarrow> error + ('a emit_file_scheme) list" where
  "rename_step P cfg options result =
     (case custom_lualib_bundle_name cfg of
        None \<Rightarrow> Inr result
      | Some name \<Rightarrow>
          if name = [] then Inr result
          else
            (case assert (outDir options) of
               Inl e \<Rightarrow> Inl e
             | Inr d \<Rightarrow> Inr (rename_loop P (path_resolve P d) name result)))"

text \<open>
  \<open>beforeEmit\<close>: the two parts in sequence. The arguments \<open>program\<close> and \<open>emitHost\<close> are
  never used by the hook and are left out.
\<close>

definition beforeEmit ::
  "path_api \<Rightarrow> config \<Rightarrow> ('o compiler_options_scheme) \<Rightarrow> ('a emit_file_scheme) list
     \<Rightarrow> error + ('a emit_file_scheme) list" where
  "beforeEmit P cfg options result =
     (case removal_step P cfg options result of
        Inl e \<Rightarrow> Inl e
      | Inr result' \<Rightarrow> rename_step P cfg options result')"

subsection \<open>Sample inputs\<close>

text \<open>
  Configurations, options and files on which the theorems below are evaluated. The
  working directory of the sample runs is \<open>/proj\<close> unless said otherwise.
\<close>

definition ex_options :: compiler_options where
  "ex_options = \<lparr>outDir = Some ''/out''\<rparr>"

definition ex_options_relative :: compiler_options where
  "ex_options_relative = \<lparr>outDir = Some ''out''\<rparr>"

definition ex_options_none :: compiler_options where
  "ex_options_none = \<lparr>outDir = None\<rparr>"

definition ex_options_empty :: compiler_options where
  "ex_options_empty = \<lparr>outDir = Some []\<rparr>"

definition cfg_remove :: config where
  "cfg_remove = \<lparr>generate_lualib_bundle = False, custom_lualib_bundle_name = None\<rparr>"

definition cfg_keep :: config where
  "cfg_keep = \<lparr>generate_lualib_bundle = True, custom_lualib_bundle_name = None\<rparr>"

definition cfg_rename :: config where
  "cfg_rename = \<lparr>generate_lualib_bundle = True, custom_lualib_bundle_name = Some ''foo''\<rparr>"

definition cfg_remove_rename :: config where
  "cfg_remove_rename =
     \<lparr>generate_lualib_bundle = False, custom_lualib_bundle_name = Some ''foo''\<rparr>"

definition cfg_same_name :: config where
  "cfg_same_name =
     \<lparr>generate_lualib_bundle = True, custom_lualib_bundle_name = Some ''lualib_bundle''\<rparr>"

definition cfg_remove_rename_dollar :: config where
  "cfg_remove_rename_dollar =
     \<lparr>generate_lualib_bundle = False, custom_lualib_bundle_name = Some ''a$$b''\<rparr>"

definition cfg_empty_name :: config where
  "cfg_empty_name = \<lparr>generate_lualib_bundle = True, custom_lualib_bundle_name = Some []\<rparr>"

definition ex_bundle :: emit_file where
  "ex_bundle = \<lparr>outputPath = ''/out/lualib_bundle.lua'', code = ''return {}''\<rparr>"

definition ex_bundle_copy :: emit_file where
  "ex_bundle_copy = \<lparr>outputPath = ''/out/lualib_bundle.lua'', code = ''return nil''\<rparr>"

definition ex_main :: emit_file where
  "ex_main = \<lparr>outputPath = ''/out/main.lua'', code = lualib_require_line @ ''print(1)''\<rparr>"

definition ex_util :: emit_file where
  \<open>ex_util = \<lparr>outputPath = ''/out/util.lua'', code = ''return require("lualib_bundle")''\<rparr>\<close>

definition ex_bundle_relative :: emit_file where
  "ex_bundle_relative = \<lparr>outputPath = ''out/lualib_bundle.lua'', code = ''return {}''\<rparr>"

definition ex_bundle_a :: emit_file where
  "ex_bundle_a = \<lparr>outputPath = ''/a/out/lualib_bundle.lua'', code = ''return {}''\<rparr>"

section \<open>Properties of the built-ins\<close>

subsection \<open>\<open>findIndex\<close> and \<open>splice\<close>\<close>

lemma findIndex_from_takeWhile:
  "findIndex_from p xs k =
     (if \<exists>x\<in>set xs. p x then k + int (length (takeWhile (\<lambda>x. \<not> p x) xs)) else - 1)"
  by (induction xs arbitrary: k) auto

lemma findIndex_none: "\<forall>x\<in>set xs. \<not> p x \<Longrightarrow> findIndex p xs = - 1"
  by (simp add: findIndex_def findIndex_from_takeWhile)

lemma findIndex_some:
  "\<exists>x\<in>set xs. p x \<Longrightarrow> findIndex p xs = int (length (takeWhile (\<lambda>x. \<not> p x) xs))"
  by (simp add: findIndex_def findIndex_from_takeWhile)

lemma findIndex_from_cong:
  "\<forall>x\<in>set xs. p x = q x \<Longrightarrow> findIndex_from p xs k = findIndex_from q xs k"
  by (induction xs arbitrary: k) auto

lemma findIndex_cong:
  "\<forall>x\<in>set xs. p x = q x \<Longrightarrow> findIndex p xs = findIndex q xs"
  by (simp add: findIndex_def findIndex_from_cong)

text \<open>\<open>splice(-1, 1)\<close> removes the last element, and nothing from an empty array.\<close>

lemma splice_minus_one: "splice_js (- 1) 1 xs = butlast xs"
  by (cases "xs = []") (simp_all add: splice_js_def butlast_conv_take nat_diff_distrib')

lemma splice_index: "i < length xs \<Longrightarrow> splice_js (int i) 1 xs = take i xs @ drop (Suc i) xs"
  by (simp add: splice_js_def Let_def nat_add_distrib)

lemma first_index_takeWhile:
  assumes "i < length xs" "p (xs ! i)" "\<forall>j<i. \<not> p (xs ! j)"
  shows "length (takeWhile (\<lambda>x. \<not> p x) xs) = i"
  using assms
proof (induction xs arbitrary: i)
  case Nil
  then show ?case by simp
next
  case (Cons x xs)
  show ?case
  proof (cases i)
    case 0
    with Cons.prems show ?thesis by simp
  next
    case (Suc n)
    from Cons.prems Suc have "\<not> p x" by auto
    moreover from Cons.prems Suc have "length (takeWhile (\<lambda>x. \<not> p x) xs) = n"
      by (intro Cons.IH) auto
    ultimately show ?thesis using Suc by simp
  qed
qed

lemma length_takeWhile_not_less:
  "\<exists>x\<in>set xs. p x \<Longrightarrow> length (takeWhile (\<lambda>x. \<not> p x) xs) < length xs"
  by (induction xs) auto

lemma filter_takeWhile_not: "filter p (takeWhile (\<lambda>x. \<not> p x) xs) = []"
  by (induction xs) auto

lemma set_tl_dropWhile: "set (tl (dropWhile q xs)) \<subseteq> set xs"
  by (induction xs) auto

text \<open>The two outcomes of \<open>result.splice(result.findIndex(p), 1)\<close>.\<close>

lemma remove_first_match:
  assumes "i < length xs" "p (xs ! i)" "\<forall>j<i. \<not> p (xs ! j)"
  shows "splice_js (findIndex p xs) 1 xs = take i xs @ drop (Suc i) xs"
proof -
  from assms(1,2) have ex: "\<exists>x\<in>set xs. p x" by (metis nth_mem)
  have "findIndex p xs = int i"
    using findIndex_some [OF ex] first_index_takeWhile [OF assms] by simp
  then show ?thesis using splice_index [OF assms(1)] by simp
qed

lemma remove_no_match:
  assumes "\<forall>x\<in>set xs. \<not> p x"
  shows "splice_js (findIndex p xs) 1 xs = butlast xs"
  using findIndex_none [OF assms] by (simp add: splice_minus_one)

lemma splice_findIndex_some:
  assumes "\<exists>x\<in>set xs. p x"
  shows "splice_js (findIndex p xs) 1 xs =
           take (length (takeWhile (\<lambda>x. \<not> p x) xs)) xs
           @ drop (Suc (length (takeWhile (\<lambda>x. \<not> p x) xs))) xs"
proof -
  have "length (takeWhile (\<lambda>x. \<not> p x) xs) < length xs"
    using assms by (rule length_takeWhile_not_less)
  then show ?thesis
    unfolding findIndex_some [OF assms] by (rule splice_index)
qed

lemma splice_findIndex_cases:
  "splice_js (findIndex p xs) 1 xs =
     (if \<exists>x\<in>set xs. p x
      then takeWhile (\<lambda>x. \<not> p x) xs @ tl (dropWhile (\<lambda>x. \<not> p x) xs)
      else butlast xs)"
proof (cases "\<exists>x\<in>set xs. p x")
  case True
  have "take (length (takeWhile (\<lambda>x. \<not> p x) xs)) xs = takeWhile (\<lambda>x. \<not> p x) xs"
    by (rule takeWhile_eq_take [symmetric])
  moreover have "drop (Suc (length (takeWhile (\<lambda>x. \<not> p x) xs))) xs
                   = tl (dropWhile (\<lambda>x. \<not> p x) xs)"
    by (simp add: dropWhile_eq_drop drop_Suc tl_drop)
  ultimately show ?thesis
    using True splice_findIndex_some [OF True] by (simp only: if_True)
next
  case False
  then show ?thesis using remove_no_match [of xs p] by simp
qed

lemma filter_splice_findIndex:
  "filter p (splice_js (findIndex p xs) 1 xs) = tl (filter p xs)"
proof (cases "\<exists>x\<in>set xs. p x")
  case True
  let ?d = "dropWhile (\<lambda>x. \<not> p x) xs"
  from True have ne: "?d \<noteq> []" by (simp add: dropWhile_eq_Nil_conv)
  then have hd: "p (hd ?d)" using hd_dropWhile [of "\<lambda>x. \<not> p x" xs] by simp
  have "filter p xs = filter p (takeWhile (\<lambda>x. \<not> p x) xs) @ filter p ?d"
    by (metis filter_append takeWhile_dropWhile_id)
  also have "filter p (takeWhile (\<lambda>x. \<not> p x) xs) = []"
    by (rule filter_takeWhile_not)
  finally have "filter p xs = filter p ?d" by simp
  also have "\<dots> = hd ?d # filter p (tl ?d)"
    using ne hd by (cases ?d) auto
  finally have a: "tl (filter p xs) = filter p (tl ?d)" by simp
  have "filter p (takeWhile (\<lambda>x. \<not> p x) xs @ tl ?d) = filter p (tl ?d)"
    by (simp add: filter_takeWhile_not)
  with a True show ?thesis by (simp add: splice_findIndex_cases)
next
  case False
  then have "filter p xs = []" by (simp add: filter_empty_conv)
  moreover from False have "filter p (butlast xs) = []"
    by (simp add: filter_empty_conv) (meson in_set_butlastD)
  ultimately show ?thesis using False by (simp add: splice_findIndex_cases)
qed

lemma length_splice_findIndex:
  "length (splice_js (findIndex p xs) 1 xs) = length xs - 1"
proof (cases "\<exists>x\<in>set xs. p x")
  case True
  have "length (takeWhile (\<lambda>x. \<not> p x) xs) < length xs"
    using True by (rule length_takeWhile_not_less)
  then show ?thesis
    unfolding splice_findIndex_some [OF True] by simp
next
  case False
  then show ?thesis by (simp add: splice_findIndex_cases)
qed

lemma set_splice_findIndex: "set (splice_js (findIndex p xs) 1 xs) \<subseteq> set xs"
proof (cases "\<exists>x\<in>set xs. p x")
  case True
  have "set (takeWhile (\<lambda>x. \<not> p x) xs) \<subseteq> set xs" by (auto dest: set_takeWhileD)
  moreover have "set (tl (dropWhile (\<lambda>x. \<not> p x) xs)) \<subseteq> set xs"
    by (rule set_tl_dropWhile)
  ultimately show ?thesis using True by (simp add: splice_findIndex_cases)
next
  case False
  then show ?thesis by (auto simp: splice_findIndex_cases dest: in_set_butlastD)
qed

lemma set_remove_index:
  assumes "i < length xs" "\<forall>j<length xs. j \<noteq> i \<longrightarrow> \<not> p (xs ! j)"
  shows "\<forall>x\<in>set (take i xs @ drop (Suc i) xs). \<not> p x"
proof
  fix x assume "x \<in> set (take i xs @ drop (Suc i) xs)"
  then consider "x \<in> set (take i xs)" | "x \<in> set (drop (Suc i) xs)" by auto
  then show "\<not> p x"
  proof cases
    case 1
    then obtain j where "j < length (take i xs)" "take i xs ! j = x"
      by (auto simp: in_set_conv_nth)
    with assms show ?thesis by auto
  next
    case 2
    then obtain j where "j < length (drop (Suc i) xs)" "drop (Suc i) xs ! j = x"
      by (auto simp: in_set_conv_nth)
    with assms show ?thesis by auto
  qed
qed

subsection \<open>The replacement text\<close>

text \<open>A template without \<open>$\<close> is inserted as it is.\<close>

lemma GetSubstitution_plain:
  "CHR ''$'' \<notin> set t \<Longrightarrow> GetSubstitution m b a t = t"
  by (induction m b a t rule: GetSubstitution.induct) auto

lemma require_template_plain:
  "CHR ''$'' \<notin> set n \<Longrightarrow> CHR ''$'' \<notin> set (require_template n)"
  by (simp add: require_template_def)

lemma replace_require_plain:
  "CHR ''$'' \<notin> set n \<Longrightarrow>
   replace_require n src =
     (if prefix lualib_require_line src
      then require_template n @ drop (length lualib_require_line) src else src)"
  by (simp add: replace_require_def Let_def GetSubstitution_plain require_template_plain)

lemma require_template_foo:
  \<open>require_template ''foo'' = ''local ____lualib = require("foo")'' @ [CHR 0x0A]\<close>
  by (simp add: require_template_def)

lemma replace_require_foo:
  \<open>replace_require ''foo'' src =
     (if prefix lualib_require_line src
      then ''local ____lualib = require("foo")'' @ [CHR 0x0A]
           @ drop (length lualib_require_line) src
      else src)\<close>
  using replace_require_plain [of "''foo''" src] by (simp add: require_template_foo)

lemma append_middle_eq: "(a @ n @ b) @ r = (a @ m @ b) @ r \<longleftrightarrow> n = m"
  by simp

lemma require_template_eq_line:
  "require_template N @ rest = lualib_require_line @ rest \<longleftrightarrow> N = ''lualib_bundle''"
proof -
  have e1: "require_template N =
      (''local ____lualib = require('' @ [CHR 0x22]) @ N @ ([CHR 0x22] @ '')'' @ [CHR 0x0A])"
    by (simp add: require_template_def)
  have e2: "lualib_require_line =
      (''local ____lualib = require('' @ [CHR 0x22]) @ ''lualib_bundle''
        @ ([CHR 0x22] @ '')'' @ [CHR 0x0A])"
    by (simp add: lualib_require_line_def)
  show ?thesis
    unfolding e1 e2 by (rule append_middle_eq)
qed

section \<open>Properties of the hook's two parts\<close>

text \<open>Whether a file counts as the bundle depends on its path only.\<close>

lemma is_lualib_bundle_code [simp]:
  "is_lualib_bundle P od (f\<lparr>code := c\<rparr>) = is_lualib_bundle P od f"
  by (simp add: is_lualib_bundle_def)

text \<open>The loop treats every file on its own.\<close>

lemma rename_loop_map:
  "rename_loop P od n fs =
     map (\<lambda>f. if is_lualib_bundle P od f then f\<lparr>outputPath := path_join P od (n @ ''.lua'')\<rparr>
              else f\<lparr>code := replace_require n (code f)\<rparr>) fs"
  by (induction fs) auto

lemma rename_loop_no_bundle:
  "\<forall>f\<in>set fs. \<not> is_lualib_bundle P od f \<Longrightarrow>
   rename_loop P od n fs = map (\<lambda>f. f\<lparr>code := replace_require n (code f)\<rparr>) fs"
  by (induction fs) auto

lemma rename_loop_cong:
  assumes "\<forall>f\<in>set fs. is_lualib_bundle P od f = is_lualib_bundle Q od f"
      and "path_join P = path_join Q"
  shows "rename_loop P od n fs = rename_loop Q od n fs"
  using assms by (induction fs) auto

lemma rename_step_no_bundle:
  assumes "outDir options = Some d" "d \<noteq> []"
      and "\<forall>f\<in>set fs. \<not> is_lualib_bundle P (path_resolve P d) f"
  shows "\<exists>r. rename_step P cfg options fs = Inr r \<and> length r = length fs
             \<and> map outputPath r = map outputPath fs
             \<and> (\<forall>f\<in>set r. \<not> is_lualib_bundle P (path_resolve P d) f)"
  using assms
  by (simp add: rename_step_def rename_loop_no_bundle comp_def split: option.splits)

lemma removal_step_total:
  assumes "outDir options = Some d" "d \<noteq> []"
  shows "\<exists>kept. removal_step P cfg options result = Inr kept"
  using assms by (simp add: removal_step_def remove_lualib_bundle_def Let_def)

lemma removal_step_subset:
  "removal_step P cfg options result = Inr r \<Longrightarrow> set r \<subseteq> set result"
  using set_splice_findIndex
  by (cases "outDir options") (fastforce simp: removal_step_def remove_lualib_bundle_def Let_def split: if_splits)+

text \<open>Both parts read \<open>outDir\<close> and no other option.\<close>

lemma removal_step_options:
  "outDir options = outDir options' \<Longrightarrow>
   removal_step P cfg options result = removal_step P cfg options' result"
  by (simp add: removal_step_def remove_lualib_bundle_def)

lemma rename_step_options:
  "outDir options = outDir options' \<Longrightarrow>
   rename_step P cfg options result = rename_step P cfg options' result"
  by (simp add: rename_step_def split: option.splits)

subsection \<open>Absolute paths on POSIX\<close>

text \<open>\<open>path.resolve\<close> consults the working directory for relative paths only.\<close>

lemma posix_resolve_absolute:
  "isAbsolute p \<Longrightarrow> posix_resolve cwd p = posix_resolve cwd' p"
  by (cases p) (simp_all add: posix_resolve_def isAbsolute_def Let_def)

lemma is_lualib_bundle_posix_absolute:
  "isAbsolute (outputPath f) \<Longrightarrow>
   is_lualib_bundle (posix cwd) od f = is_lualib_bundle (posix cwd') od f"
  using posix_resolve_absolute [of "outputPath f" cwd cwd']
  by (simp add: is_lualib_bundle_def posix_def)

lemma removal_step_posix_absolute:
  assumes "\<forall>d. outDir options = Some d \<longrightarrow> isAbsolute d"
      and "\<forall>f\<in>set result. isAbsolute (outputPath f)"
  shows "removal_step (posix cwd) cfg options result = removal_step (posix cwd') cfg options result"
proof (cases "outDir options")
  case None
  then show ?thesis by (simp add: removal_step_def remove_lualib_bundle_def)
next
  case (Some d)
  with assms(1) have d: "posix_resolve cwd d = posix_resolve cwd' d"
    by (simp add: posix_resolve_absolute)
  have "findIndex (is_lualib_bundle (posix cwd) (posix_resolve cwd' d)) result
        = findIndex (is_lualib_bundle (posix cwd') (posix_resolve cwd' d)) result"
    using assms(2) by (intro findIndex_cong ballI is_lualib_bundle_posix_absolute) simp
  with Some d show ?thesis
    by (simp add: removal_step_def remove_lualib_bundle_def posix_def)
qed

lemma rename_step_posix_absolute:
  assumes "\<forall>d. outDir options = Some d \<longrightarrow> isAbsolute d"
      and "\<forall>f\<in>set result. isAbsolute (outputPath f)"
  shows "rename_step (posix cwd) cfg options result = rename_step (posix cwd') cfg options result"
proof (cases "outDir options")
  case None
  then show ?thesis by (simp add: rename_step_def split: option.splits)
next
  case (Some d)
  with assms(1) have d: "posix_resolve cwd d = posix_resolve cwd' d"
    by (simp add: posix_resolve_absolute)
  have "rename_loop (posix cwd) (posix_resolve cwd' d) n result
        = rename_loop (posix cwd') (posix_resolve cwd' d) n result" for n
    using assms(2)
    by (intro rename_loop_cong ballI is_lualib_bundle_posix_absolute) (simp_all add: posix_def)
  with Some d show ?thesis
    by (simp add: rename_step_def posix_def split: option.splits)
qed

section \<open>The claims\<close>

text \<open>
  In the statements below, \<open>outDir options = Some d\<close> with \<open>d \<noteq> []\<close> says that
  \<open>outDir\<close> is given as a non-empty string, so that \<open>assert(options.outDir)\<close> passes, and
  \<open>custom_lualib_bundle_name cfg = Some N\<close> with \<open>N \<noteq> []\<close> that the name is a
  non-empty string, so that the test \<open>if (config.custom_lualib_bundle_name)\<close> succeeds.
\<close>

subsection \<open>C1: removal of the bundle\<close>

text \<open>
  Claim C1. When \<open>generate_lualib_bundle\<close> is false, \<open>outDir\<close> is given and exactly one
  entry of the result list (the one at index \<open>i\<close>) has its resolved \<open>outputPath\<close> directly
  in the resolved \<open>outDir\<close> with basename \<open>lualib_bundle.lua\<close>, then \<open>beforeEmit\<close> returns,
  the returned list no longer contains that entry, none of its entries is
  \<open>lualib_bundle.lua\<close> in \<open>outDir\<close>, and the other entries are left in their order with
  their paths. The restriction to one such entry is needed: \<open>findIndex\<close> locates the first
  one only and \<open>splice\<close> removes one element.
\<close>

theorem removal_of_only_bundle:
  assumes "\<not> generate_lualib_bundle cfg" "outDir options = Some d" "d \<noteq> []"
      and "i < length result" "is_lualib_bundle P (path_resolve P d) (result ! i)"
      and "\<forall>j<length result. j \<noteq> i \<longrightarrow> \<not> is_lualib_bundle P (path_resolve P d) (result ! j)"
  shows "\<exists>r. beforeEmit P cfg options result = Inr r
             \<and> map outputPath r = map outputPath (take i result @ drop (Suc i) result)
             \<and> result ! i \<notin> set r
             \<and> (\<forall>f\<in>set r. \<not> is_lualib_bundle P (path_resolve P d) f)"
proof -
  let ?p = "is_lualib_bundle P (path_resolve P d)"
  let ?kept = "take i result @ drop (Suc i) result"
  from assms(4,6) have "\<forall>j<i. \<not> ?p (result ! j)" by auto
  with assms(4,5) have "splice_js (findIndex ?p result) 1 result = ?kept"
    by (rule remove_first_match)
  with assms(1-3) have step: "removal_step P cfg options result = Inr ?kept"
    by (simp add: removal_step_def remove_lualib_bundle_def)
  have "\<forall>f\<in>set ?kept. \<not> ?p f"
    using assms(4,6) by (rule set_remove_index)
  with assms(2,3) obtain r where r: "rename_step P cfg options ?kept = Inr r"
      "map outputPath r = map outputPath ?kept" "\<forall>f\<in>set r. \<not> ?p f"
    using rename_step_no_bundle [of options d ?kept P cfg] by blast
  from r(3) assms(5) have "result ! i \<notin> set r" by blast
  with step r show ?thesis by (simp add: beforeEmit_def)
qed

text \<open>The theorem on the list \<open>[main.lua, lualib_bundle.lua, util.lua]\<close> in \<open>/out\<close>.\<close>

theorem removal_of_only_bundle_witness:
  "\<exists>r. beforeEmit (posix ''/proj'') cfg_remove_rename ex_options [ex_main, ex_bundle, ex_util]
           = Inr r
       \<and> map outputPath r
           = map outputPath (take 1 [ex_main, ex_bundle, ex_util]
                             @ drop (Suc 1) [ex_main, ex_bundle, ex_util])
       \<and> [ex_main, ex_bundle, ex_util] ! 1 \<notin> set r
       \<and> (\<forall>f\<in>set r. \<not> is_lualib_bundle (posix ''/proj'')
                          (path_resolve (posix ''/proj'') ''/out'') f)"
proof (rule removal_of_only_bundle)
  show "\<not> generate_lualib_bundle cfg_remove_rename" by code_simp
  show "outDir ex_options = Some ''/out''" by code_simp
  show "''/out'' \<noteq> []" by simp
  show "1 < length [ex_main, ex_bundle, ex_util]" by simp
  show "is_lualib_bundle (posix ''/proj'') (path_resolve (posix ''/proj'') ''/out'')
          ([ex_main, ex_bundle, ex_util] ! 1)" by code_simp
  show "\<forall>j<length [ex_main, ex_bundle, ex_util]. j \<noteq> 1 \<longrightarrow>
          \<not> is_lualib_bundle (posix ''/proj'') (path_resolve (posix ''/proj'') ''/out'')
              ([ex_main, ex_bundle, ex_util] ! j)"
  proof (intro allI impI)
    fix j :: nat assume "j < length [ex_main, ex_bundle, ex_util]" "j \<noteq> 1"
    then have "j = 0 \<or> j = 2" by auto
    moreover have "\<not> is_lualib_bundle (posix ''/proj'')
        (path_resolve (posix ''/proj'') ''/out'') ex_main"
      by code_simp
    moreover have "\<not> is_lualib_bundle (posix ''/proj'')
        (path_resolve (posix ''/proj'') ''/out'') ex_util"
      by code_simp
    ultimately show "\<not> is_lualib_bundle (posix ''/proj'')
        (path_resolve (posix ''/proj'') ''/out'') ([ex_main, ex_bundle, ex_util] ! j)"
      by auto
  qed
qed

text \<open>
  Without the restriction the statement fails: of two entries that both are
  \<open>/out/lualib_bundle.lua\<close> the second is still in the list after the hook.
\<close>

theorem two_bundles_counterexample:
  "ex_bundle_copy \<in> set [ex_bundle, ex_bundle_copy]
   \<and> is_lualib_bundle (posix ''/proj'') (path_resolve (posix ''/proj'') ''/out'') ex_bundle_copy
   \<and> \<not> generate_lualib_bundle cfg_remove
   \<and> beforeEmit (posix ''/proj'') cfg_remove ex_options [ex_bundle, ex_bundle_copy]
       = Inr [ex_bundle_copy]
   \<and> ex_bundle_copy \<in> set [ex_bundle_copy]"
  by code_simp

subsection \<open>C2: the rewrite for the name \<open>foo\<close>\<close>

text \<open>
  Claim C2. When \<open>custom_lualib_bundle_name\<close> is \<open>foo\<close> and \<open>outDir\<close> is given,
  \<open>beforeEmit\<close> returns, and every file left by the removal part that is not
  \<open>lualib_bundle.lua\<close> in \<open>outDir\<close> keeps its path and has its code rewritten as follows:
  if the code starts with the line \<open>local ____lualib = require("lualib_bundle")\<close> and a
  newline, that line becomes \<open>local ____lualib = require("foo")\<close>, and the rest of the code
  is kept; otherwise the code is unchanged. So only the leading line is rewritten, not every
  occurrence of \<open>require("lualib_bundle")\<close>.
\<close>

theorem rewrite_leading_require_foo:
  assumes "custom_lualib_bundle_name cfg = Some ''foo''" "outDir options = Some d" "d \<noteq> []"
  shows \<open>\<exists>kept r. removal_step P cfg options result = Inr kept
           \<and> beforeEmit P cfg options result = Inr r
           \<and> length r = length kept
           \<and> (\<forall>i<length kept. \<not> is_lualib_bundle P (path_resolve P d) (kept ! i) \<longrightarrow>
                 outputPath (r ! i) = outputPath (kept ! i)
                 \<and> code (r ! i) =
                     (if prefix lualib_require_line (code (kept ! i))
                      then ''local ____lualib = require("foo")'' @ [CHR 0x0A]
                           @ drop (length lualib_require_line) (code (kept ! i))
                      else code (kept ! i)))\<close>
proof -
  from assms(2,3) obtain kept where kept: "removal_step P cfg options result = Inr kept"
    using removal_step_total by blast
  let ?out = "rename_loop P (path_resolve P d) ''foo'' kept"
  from assms have "rename_step P cfg options kept = Inr ?out"
    by (simp add: rename_step_def)
  with kept have "beforeEmit P cfg options result = Inr ?out"
    by (simp add: beforeEmit_def)
  moreover have "length ?out = length kept"
    by (simp add: rename_loop_map)
  moreover have \<open>\<forall>i<length kept. \<not> is_lualib_bundle P (path_resolve P d) (kept ! i) \<longrightarrow>
                 outputPath (?out ! i) = outputPath (kept ! i)
                 \<and> code (?out ! i) =
                     (if prefix lualib_require_line (code (kept ! i))
                      then ''local ____lualib = require("foo")'' @ [CHR 0x0A]
                           @ drop (length lualib_require_line) (code (kept ! i))
                      else code (kept ! i))\<close>
    by (simp add: rename_loop_map replace_require_foo)
  ultimately show ?thesis using kept by blast
qed

theorem rewrite_leading_require_foo_witness:
  \<open>\<exists>kept r. removal_step (posix ''/proj'') cfg_rename ex_options [ex_bundle, ex_main, ex_util]
               = Inr kept
           \<and> beforeEmit (posix ''/proj'') cfg_rename ex_options [ex_bundle, ex_main, ex_util]
               = Inr r
           \<and> length r = length kept
           \<and> (\<forall>i<length kept.
                 \<not> is_lualib_bundle (posix ''/proj'') (path_resolve (posix ''/proj'') ''/out'')
                     (kept ! i) \<longrightarrow>
                 outputPath (r ! i) = outputPath (kept ! i)
                 \<and> code (r ! i) =
                     (if prefix lualib_require_line (code (kept ! i))
                      then ''local ____lualib = require("foo")'' @ [CHR 0x0A]
                           @ drop (length lualib_require_line) (code (kept ! i))
                      else code (kept ! i)))\<close>
proof (rule rewrite_leading_require_foo)
  show "custom_lualib_bundle_name cfg_rename = Some ''foo''" by code_simp
  show "outDir ex_options = Some ''/out''" by code_simp
  show "''/out'' \<noteq> []" by simp
qed

text \<open>
  A \<open>require("lualib_bundle")\<close> that is not the leading line stays: the file
  \<open>util.lua\<close>, whose code is \<open>return require("lualib_bundle")\<close>, comes out unchanged.
\<close>

theorem later_require_counterexample:
  \<open>custom_lualib_bundle_name cfg_rename = Some ''foo''
   \<and> \<not> is_lualib_bundle (posix ''/proj'') (path_resolve (posix ''/proj'') ''/out'') ex_util
   \<and> beforeEmit (posix ''/proj'') cfg_rename ex_options [ex_util] = Inr [ex_util]
   \<and> sublist ''require("lualib_bundle")'' (code ex_util)
   \<and> \<not> sublist ''require("foo")'' (code ex_util)\<close>
  by code_simp

subsection \<open>C3: removal when the bundle is not in the list\<close>

text \<open>
  Claim C3. For a non-empty result list with no entry that is \<open>lualib_bundle.lua\<close> in the
  resolved \<open>outDir\<close>, the index-based removal raises no error and still removes an
  entry: the last one, since \<open>findIndex\<close> yields \<open>-1\<close> and \<open>splice(-1, 1)\<close>
  deletes the last element. So the first part of the hook, which runs when
  \<open>generate_lualib_bundle\<close> is false and comes to the removal once its assertion has
  passed, returns the list without its last entry.
\<close>

theorem removal_without_bundle_drops_last:
  assumes "result \<noteq> []"
      and "\<forall>f\<in>set result. \<not> is_lualib_bundle P out_dir f"
  shows "remove_lualib_bundle P out_dir result = butlast result
         \<and> length (remove_lualib_bundle P out_dir result) < length result
         \<and> (\<not> generate_lualib_bundle cfg \<and> outDir options = Some d \<and> d \<noteq> []
              \<and> path_resolve P d = out_dir \<longrightarrow>
            removal_step P cfg options result = Inr (butlast result))"
proof -
  have body: "remove_lualib_bundle P out_dir result = butlast result"
    using remove_no_match [OF assms(2)] by (simp add: remove_lualib_bundle_def)
  moreover from assms(1) have "length (butlast result) < length result"
    by simp
  moreover have "removal_step P cfg options result = Inr (butlast result)"
    if "\<not> generate_lualib_bundle cfg" "outDir options = Some d" "d \<noteq> []"
       "path_resolve P d = out_dir"
    using that body by (simp add: removal_step_def)
  ultimately show ?thesis by simp
qed

theorem removal_without_bundle_drops_last_witness:
  "remove_lualib_bundle (posix ''/proj'') ''/out'' [ex_main, ex_util] = [ex_main]
   \<and> removal_step (posix ''/proj'') cfg_remove ex_options [ex_main, ex_util] = Inr [ex_main]"
proof -
  have "[ex_main, ex_util] \<noteq> []" by simp
  moreover have "\<forall>f\<in>set [ex_main, ex_util]. \<not> is_lualib_bundle (posix ''/proj'') ''/out'' f"
    by code_simp
  moreover have "\<not> generate_lualib_bundle cfg_remove" by code_simp
  moreover have "outDir ex_options = Some ''/out''" by code_simp
  moreover have "''/out'' \<noteq> []" by simp
  moreover have "path_resolve (posix ''/proj'') ''/out'' = ''/out''" by code_simp
  ultimately show ?thesis
    using removal_without_bundle_drops_last
      [of "[ex_main, ex_util]" "posix ''/proj''" "''/out''" cfg_remove ex_options "''/out''"]
    by simp
qed

subsection \<open>C4: the new name of the bundle\<close>

text \<open>
  Claim C4. When \<open>generate_lualib_bundle\<close> is true, \<open>custom_lualib_bundle_name\<close> is a
  non-empty string \<open>N\<close> and \<open>outDir\<close> is given, \<open>beforeEmit\<close> returns a list of the same
  length in which every entry that was \<open>lualib_bundle.lua\<close> in the resolved \<open>outDir\<close> has
  as \<open>outputPath\<close> the join of the resolved \<open>outDir\<close> (\<open>path.resolve(options.outDir)\<close>)
  and \<open>N + ".lua"\<close>. The directory joined is the resolved one, not the option as given.
\<close>

theorem bundle_renamed:
  assumes "generate_lualib_bundle cfg" "custom_lualib_bundle_name cfg = Some N" "N \<noteq> []"
      and "outDir options = Some d" "d \<noteq> []"
      and "i < length result" "is_lualib_bundle P (path_resolve P d) (result ! i)"
  shows "\<exists>r. beforeEmit P cfg options result = Inr r \<and> length r = length result
             \<and> outputPath (r ! i) = path_join P (path_resolve P d) (N @ ''.lua'')"
  using assms
  by (simp add: beforeEmit_def removal_step_def remove_lualib_bundle_def rename_step_def rename_loop_map)

theorem bundle_renamed_witness:
  "\<exists>r. beforeEmit (posix ''/proj'') cfg_rename ex_options_relative [ex_main, ex_bundle_relative]
           = Inr r
       \<and> length r = length [ex_main, ex_bundle_relative]
       \<and> outputPath (r ! 1)
           = path_join (posix ''/proj'') (path_resolve (posix ''/proj'') ''out'')
               (''foo'' @ ''.lua'')"
proof (rule bundle_renamed)
  show "generate_lualib_bundle cfg_rename" by code_simp
  show "custom_lualib_bundle_name cfg_rename = Some ''foo''" by code_simp
  show "''foo'' \<noteq> []" by simp
  show "outDir ex_options_relative = Some ''out''" by code_simp
  show "''out'' \<noteq> []" by simp
  show "1 < length [ex_main, ex_bundle_relative]" by simp
  show "is_lualib_bundle (posix ''/proj'') (path_resolve (posix ''/proj'') ''out'')
          ([ex_main, ex_bundle_relative] ! 1)" by code_simp
qed

text \<open>
  With the relative option \<open>outDir = "out"\<close> in the working directory \<open>/proj\<close>, the bundle
  \<open>out/lualib_bundle.lua\<close> is renamed to \<open>/proj/out/foo.lua\<close>, whereas the join of
  \<open>outDir\<close> itself and \<open>foo.lua\<close> is \<open>out/foo.lua\<close>.
\<close>

theorem relative_outDir_counterexample:
  "generate_lualib_bundle cfg_rename
   \<and> custom_lualib_bundle_name cfg_rename = Some ''foo''
   \<and> outDir ex_options_relative = Some ''out''
   \<and> is_lualib_bundle (posix ''/proj'') (path_resolve (posix ''/proj'') ''out'') ex_bundle_relative
   \<and> beforeEmit (posix ''/proj'') cfg_rename ex_options_relative [ex_bundle_relative]
       = Inr [ex_bundle_relative\<lparr>outputPath := ''/proj/out/foo.lua''\<rparr>]
   \<and> path_join (posix ''/proj'') ''out'' (''foo'' @ ''.lua'') = ''out/foo.lua''
   \<and> ''/proj/out/foo.lua'' \<noteq> ''out/foo.lua''"
  by code_simp

subsection \<open>C5: the only error\<close>

text \<open>
  Claim C5. \<open>beforeEmit\<close> raises an error if and only if \<open>outDir\<close> is absent or the
  empty string while at least one of the two parts is active: \<open>generate_lualib_bundle\<close>
  is false, or \<open>custom_lualib_bundle_name\<close> is a non-empty string. The assertion
  \<open>assert(options.outDir)\<close> is the only error check: no result list, missing file or
  code content makes the hook fail.
\<close>

theorem beforeEmit_error_iff:
  "isl (beforeEmit P cfg options result) \<longleftrightarrow>
     (outDir options = None \<or> outDir options = Some [])
     \<and> (\<not> generate_lualib_bundle cfg
          \<or> (\<exists>N. custom_lualib_bundle_name cfg = Some N \<and> N \<noteq> []))"
proof (cases "outDir options")
  case None
  then show ?thesis
    by (auto simp: beforeEmit_def removal_step_def rename_step_def Let_def
             split: option.splits)
next
  case (Some d)
  then show ?thesis
    by (auto simp: beforeEmit_def removal_step_def rename_step_def Let_def
             split: option.splits)
qed

theorem beforeEmit_error_iff_witness:
  "isl (beforeEmit (posix ''/proj'') cfg_remove ex_options_none [ex_main])
   \<and> isl (beforeEmit (posix ''/proj'') cfg_rename ex_options_none [ex_main])
   \<and> \<not> isl (beforeEmit (posix ''/proj'') cfg_keep ex_options_none [ex_main])
   \<and> \<not> isl (beforeEmit (posix ''/proj'') cfg_remove_rename ex_options ([] :: emit_file list))"
proof -
  have "outDir ex_options_none = None" "outDir ex_options = Some ''/out''"
       "\<not> generate_lualib_bundle cfg_remove"
       "custom_lualib_bundle_name cfg_rename = Some ''foo''"
       "generate_lualib_bundle cfg_keep" "custom_lualib_bundle_name cfg_keep = None"
    by code_simp+
  then show ?thesis
    using beforeEmit_error_iff [of "posix ''/proj''" cfg_remove ex_options_none "[ex_main]"]
          beforeEmit_error_iff [of "posix ''/proj''" cfg_rename ex_options_none "[ex_main]"]
          beforeEmit_error_iff [of "posix ''/proj''" cfg_keep ex_options_none "[ex_main]"]
          beforeEmit_error_iff
            [of "posix ''/proj''" cfg_remove_rename ex_options "[] :: emit_file list"]
    by auto
qed

text \<open>
  Present is not enough: with \<open>outDir\<close> the empty string the assertion fails, so the hook
  raises although the option is there; and with the name the empty string the second part
  is not active, so the hook returns although the name is there and \<open>outDir\<close> is not.
\<close>

theorem empty_string_counterexample:
  "outDir ex_options_empty = Some []
   \<and> outDir ex_options_empty \<noteq> None
   \<and> \<not> generate_lualib_bundle cfg_remove
   \<and> isl (beforeEmit (posix ''/proj'') cfg_remove ex_options_empty [ex_main])
   \<and> custom_lualib_bundle_name cfg_empty_name = Some []
   \<and> outDir ex_options_none = None
   \<and> \<not> isl (beforeEmit (posix ''/proj'') cfg_empty_name ex_options_none [ex_main])"
  by code_simp

subsection \<open>C6: nothing is removed when the bundle is wanted\<close>

text \<open>
  Claim C6. When \<open>generate_lualib_bundle\<close> is true, the removal part changes nothing: it
  returns the result list as it was, with \<open>lualib_bundle.lua\<close> and every other entry, and
  no path or code modified; the hook then is its second part alone.
\<close>

theorem removal_step_keeps_all:
  assumes "generate_lualib_bundle cfg"
  shows "removal_step P cfg options result = Inr result
         \<and> beforeEmit P cfg options result = rename_step P cfg options result"
  using assms by (simp add: removal_step_def remove_lualib_bundle_def beforeEmit_def)

theorem removal_step_keeps_all_witness:
  "removal_step (posix ''/proj'') cfg_keep ex_options_none [ex_bundle, ex_main]
     = Inr [ex_bundle, ex_main]
   \<and> beforeEmit (posix ''/proj'') cfg_keep ex_options_none [ex_bundle, ex_main]
     = Inr [ex_bundle, ex_main]"
proof -
  have "generate_lualib_bundle cfg_keep" by code_simp
  moreover have "rename_step (posix ''/proj'') cfg_keep ex_options_none [ex_bundle, ex_main]
      = Inr [ex_bundle, ex_main]" by code_simp
  ultimately show ?thesis
    using removal_step_keeps_all
      [of cfg_keep "posix ''/proj''" ex_options_none "[ex_bundle, ex_main]"]
    by simp
qed

subsection \<open>C7: what the outcome depends on\<close>

text \<open>
  Claim C7. Take two runs of \<open>beforeEmit\<close> on the same configuration, the same
  \<open>outDir\<close> option and the same result list, in processes whose working directories
  \<open>cwd\<close> and \<open>cwd'\<close> may differ and whose other compiler options may differ. If
  \<open>outDir\<close> and the \<open>outputPath\<close> of every entry are absolute paths, the two runs have
  the same outcome (on POSIX): the hook resolves these paths and nothing else, and
  \<open>path.resolve\<close> consults the working directory for relative paths only. The condition
  on the paths cannot be dropped, as the example after the theorem shows.
\<close>

theorem beforeEmit_deterministic:
  assumes "outDir options = outDir options'"
      and "\<forall>d. outDir options = Some d \<longrightarrow> isAbsolute d"
      and "\<forall>f\<in>set result. isAbsolute (outputPath f)"
  shows "beforeEmit (posix cwd) cfg options result = beforeEmit (posix cwd') cfg options' result"
proof -
  have "beforeEmit (posix cwd') cfg options result = beforeEmit (posix cwd') cfg options' result"
    using assms(1)
    by (simp add: beforeEmit_def removal_step_options [of options options']
                  rename_step_options [of options options'] split: sum.splits)
  moreover
  have "beforeEmit (posix cwd) cfg options result = beforeEmit (posix cwd') cfg options result"
  proof (cases "removal_step (posix cwd') cfg options result")
    case (Inl e)
    with assms(2,3) show ?thesis
      by (simp add: beforeEmit_def removal_step_posix_absolute [of options result cwd cfg cwd'])
  next
    case (Inr r)
    then have "set r \<subseteq> set result" by (rule removal_step_subset)
    with assms(3) have "\<forall>f\<in>set r. isAbsolute (outputPath f)" by blast
    with assms(2)
    have "rename_step (posix cwd) cfg options r = rename_step (posix cwd') cfg options r"
      by (intro rename_step_posix_absolute) simp_all
    with assms(2,3) Inr show ?thesis
      by (simp add: beforeEmit_def removal_step_posix_absolute [of options result cwd cfg cwd'])
  qed
  ultimately show ?thesis by simp
qed

text \<open>
  Two runs in \<open>/a\<close> and \<open>/b\<close> on absolute paths: both remove the bundle and rewrite
  the leading line of \<open>main.lua\<close>.
\<close>

theorem beforeEmit_deterministic_witness:
  "beforeEmit (posix ''/a'') cfg_remove_rename ex_options [ex_bundle, ex_main]
     = beforeEmit (posix ''/b'') cfg_remove_rename ex_options [ex_bundle, ex_main]
   \<and> beforeEmit (posix ''/b'') cfg_remove_rename ex_options [ex_bundle, ex_main]
     = Inr [ex_main\<lparr>code := require_template ''foo'' @ ''print(1)''\<rparr>]"
proof -
  have "outDir ex_options = outDir ex_options" by simp
  moreover have "\<forall>d. outDir ex_options = Some d \<longrightarrow> isAbsolute d"
    by (simp add: ex_options_def isAbsolute_def)
  moreover have "\<forall>f\<in>set [ex_bundle, ex_main]. isAbsolute (outputPath f)"
    by code_simp
  ultimately have "beforeEmit (posix ''/a'') cfg_remove_rename ex_options [ex_bundle, ex_main]
     = beforeEmit (posix ''/b'') cfg_remove_rename ex_options [ex_bundle, ex_main]"
    by (rule beforeEmit_deterministic)
  moreover have "beforeEmit (posix ''/b'') cfg_remove_rename ex_options [ex_bundle, ex_main]
     = Inr [ex_main\<lparr>code := require_template ''foo'' @ ''print(1)''\<rparr>]"
    by code_simp
  ultimately show ?thesis by simp
qed

text \<open>
  The configuration, \<open>outDir\<close> and the result list alone do not determine the outcome:
  with the relative option \<open>outDir = "out"\<close>, the file \<open>/a/out/lualib_bundle.lua\<close> is
  renamed by a run in the working directory \<open>/a\<close> and left alone by a run in \<open>/b\<close>.
\<close>

theorem working_directory_counterexample:
  "beforeEmit (posix ''/a'') cfg_rename ex_options_relative [ex_bundle_a]
     = Inr [ex_bundle_a\<lparr>outputPath := ''/a/out/foo.lua''\<rparr>]
   \<and> beforeEmit (posix ''/b'') cfg_rename ex_options_relative [ex_bundle_a] = Inr [ex_bundle_a]
   \<and> ex_bundle_a\<lparr>outputPath := ''/a/out/foo.lua''\<rparr> \<noteq> ex_bundle_a"
  by code_simp

subsection \<open>C8: which code is rewritten\<close>

text \<open>
  Claim C8. Let \<open>custom_lualib_bundle_name\<close> be a non-empty string \<open>N\<close> without \<open>$\<close>
  and \<open>outDir\<close> be given. For a file that is not \<open>lualib_bundle.lua\<close> in \<open>outDir\<close>, the
  second part of the hook replaces the leading line
  \<open>local ____lualib = require("lualib_bundle")\<close> (with its newline) by the same line
  naming \<open>N\<close> if the code starts with it, and keeps everything after that line, later
  occurrences of \<open>require("lualib_bundle")\<close> included; code that does not start with the
  line is not touched. Hence the code is changed if and only if it starts with that line and
  \<open>N\<close> is not \<open>lualib_bundle\<close> itself.
\<close>

theorem leading_require_rewritten:
  assumes "custom_lualib_bundle_name cfg = Some N" "N \<noteq> []" "CHR ''$'' \<notin> set N"
      and "outDir options = Some d" "d \<noteq> []"
      and "i < length result" "\<not> is_lualib_bundle P (path_resolve P d) (result ! i)"
  shows "\<exists>r. rename_step P cfg options result = Inr r \<and> length r = length result
           \<and> code (r ! i) =
               (if prefix lualib_require_line (code (result ! i))
                then require_template N @ drop (length lualib_require_line) (code (result ! i))
                else code (result ! i))
           \<and> (code (r ! i) \<noteq> code (result ! i) \<longleftrightarrow>
                prefix lualib_require_line (code (result ! i)) \<and> N \<noteq> ''lualib_bundle'')"
proof -
  let ?out = "rename_loop P (path_resolve P d) N result"
  let ?c = "code (result ! i)"
  let ?rest = "drop (length lualib_require_line) ?c"
  from assms have step: "rename_step P cfg options result = Inr ?out"
    by (simp add: rename_step_def)
  have len: "length ?out = length result" by (simp add: rename_loop_map)
  from assms(3,6,7) have c: "code (?out ! i) =
      (if prefix lualib_require_line ?c then require_template N @ ?rest else ?c)"
    by (simp add: rename_loop_map replace_require_plain)
  have "code (?out ! i) \<noteq> ?c \<longleftrightarrow> prefix lualib_require_line ?c \<and> N \<noteq> ''lualib_bundle''"
  proof (cases "prefix lualib_require_line ?c")
    case True
    then have "?c = lualib_require_line @ ?rest"
      by (metis append_eq_conv_conj prefixE)
    then have "require_template N @ ?rest = ?c \<longleftrightarrow> N = ''lualib_bundle''"
      using require_template_eq_line [of N ?rest] by simp
    with True c show ?thesis by simp
  next
    case False
    with c show ?thesis by simp
  qed
  with step len c show ?thesis by blast
qed

theorem leading_require_rewritten_witness:
  "\<exists>r. rename_step (posix ''/proj'') cfg_rename ex_options [ex_bundle, ex_main] = Inr r
       \<and> length r = length [ex_bundle, ex_main]
       \<and> code (r ! 1) =
           (if prefix lualib_require_line (code ([ex_bundle, ex_main] ! 1))
            then require_template ''foo''
                 @ drop (length lualib_require_line) (code ([ex_bundle, ex_main] ! 1))
            else code ([ex_bundle, ex_main] ! 1))
       \<and> (code (r ! 1) \<noteq> code ([ex_bundle, ex_main] ! 1) \<longleftrightarrow>
            prefix lualib_require_line (code ([ex_bundle, ex_main] ! 1))
            \<and> ''foo'' \<noteq> ''lualib_bundle'')"
proof (rule leading_require_rewritten)
  show "custom_lualib_bundle_name cfg_rename = Some ''foo''" by code_simp
  show "''foo'' \<noteq> []" by simp
  show "CHR ''$'' \<notin> set ''foo''" by simp
  show "outDir ex_options = Some ''/out''" by code_simp
  show "''/out'' \<noteq> []" by simp
  show "1 < length [ex_bundle, ex_main]" by simp
  show "\<not> is_lualib_bundle (posix ''/proj'') (path_resolve (posix ''/proj'') ''/out'')
          ([ex_bundle, ex_main] ! 1)" by code_simp
qed

text \<open>
  When the name is \<open>lualib_bundle\<close>, a file that starts with the line comes out with the
  same code: starting with the line does not by itself mean that the code is changed.
\<close>

theorem same_name_counterexample:
  "custom_lualib_bundle_name cfg_same_name = Some ''lualib_bundle''
   \<and> \<not> is_lualib_bundle (posix ''/proj'') (path_resolve (posix ''/proj'') ''/out'') ex_main
   \<and> prefix lualib_require_line (code ex_main)
   \<and> beforeEmit (posix ''/proj'') cfg_same_name ex_options [ex_main] = Inr [ex_main]"
  by code_simp

subsection \<open>C9: what the second part leaves alone\<close>

text \<open>
  Claim C9. The rename and rewrite loop returns a list of the same length whose entries
  stand where they stood: an entry that is not \<open>lualib_bundle.lua\<close> in \<open>outDir\<close>
  keeps its \<open>outputPath\<close>, the \<open>lualib_bundle.lua\<close> entry keeps its \<open>code\<close>, and
  every entry keeps all its other fields. No entry is added or removed. Whatever the second
  part of the hook returns is either the list as it was or the result of that loop.
\<close>

theorem rename_loop_frame:
  "length (rename_loop P out_dir N result) = length result
   \<and> (\<forall>i<length result.
         emit_file.more (rename_loop P out_dir N result ! i) = emit_file.more (result ! i)
         \<and> (if is_lualib_bundle P out_dir (result ! i)
            then code (rename_loop P out_dir N result ! i) = code (result ! i)
            else outputPath (rename_loop P out_dir N result ! i) = outputPath (result ! i)))
   \<and> (\<forall>r. rename_step P cfg options result = Inr r \<longrightarrow>
         r = result
         \<or> (\<exists>d name. outDir options = Some d \<and> custom_lualib_bundle_name cfg = Some name
                \<and> r = rename_loop P (path_resolve P d) name result))"
proof (intro conjI allI impI)
  show "length (rename_loop P out_dir N result) = length result"
    by (simp add: rename_loop_map)
next
  fix i assume "i < length result"
  then show "emit_file.more (rename_loop P out_dir N result ! i) = emit_file.more (result ! i)"
    by (simp add: rename_loop_map)
next
  fix i assume "i < length result"
  then show "if is_lualib_bundle P out_dir (result ! i)
      then code (rename_loop P out_dir N result ! i) = code (result ! i)
      else outputPath (rename_loop P out_dir N result ! i) = outputPath (result ! i)"
    by (simp add: rename_loop_map)
next
  fix r assume "rename_step P cfg options result = Inr r"
  then show "r = result
      \<or> (\<exists>d name. outDir options = Some d \<and> custom_lualib_bundle_name cfg = Some name
             \<and> r = rename_loop P (path_resolve P d) name result)"
    by (cases "outDir options")
       (auto simp: rename_step_def split: option.splits if_splits)
qed

theorem rename_loop_frame_witness:
  "length (rename_loop (posix ''/proj'') ''/out'' ''foo'' [ex_bundle, ex_main]) = 2
   \<and> code (rename_loop (posix ''/proj'') ''/out'' ''foo'' [ex_bundle, ex_main] ! 0)
       = code ex_bundle
   \<and> outputPath (rename_loop (posix ''/proj'') ''/out'' ''foo'' [ex_bundle, ex_main] ! 1)
       = outputPath ex_main"
proof -
  note frame = rename_loop_frame
    [of "posix ''/proj''" "''/out''" "''foo''" "[ex_bundle, ex_main]" cfg_rename ex_options]
  have b0: "is_lualib_bundle (posix ''/proj'') ''/out'' ([ex_bundle, ex_main] ! 0)"
    by code_simp
  have b1: "\<not> is_lualib_bundle (posix ''/proj'') ''/out'' ([ex_bundle, ex_main] ! 1)"
    by code_simp
  from frame have len: "length (rename_loop (posix ''/proj'') ''/out'' ''foo'' [ex_bundle, ex_main])
      = length [ex_bundle, ex_main]"
    by (rule conjunct1)
  from frame have each: "\<forall>i<length [ex_bundle, ex_main].
      emit_file.more (rename_loop (posix ''/proj'') ''/out'' ''foo'' [ex_bundle, ex_main] ! i)
        = emit_file.more ([ex_bundle, ex_main] ! i)
      \<and> (if is_lualib_bundle (posix ''/proj'') ''/out'' ([ex_bundle, ex_main] ! i)
         then code (rename_loop (posix ''/proj'') ''/out'' ''foo'' [ex_bundle, ex_main] ! i)
              = code ([ex_bundle, ex_main] ! i)
         else outputPath (rename_loop (posix ''/proj'') ''/out'' ''foo'' [ex_bundle, ex_main] ! i)
              = outputPath ([ex_bundle, ex_main] ! i))"
    by blast
  from each b0 have "code (rename_loop (posix ''/proj'') ''/out'' ''foo'' [ex_bundle, ex_main] ! 0)
      = code ([ex_bundle, ex_main] ! 0)"
    by (auto split: if_splits)
  moreover from each b1
  have "outputPath (rename_loop (posix ''/proj'') ''/out'' ''foo'' [ex_bundle, ex_main] ! 1)
      = outputPath ([ex_bundle, ex_main] ! 1)"
    by (auto split: if_splits)
  ultimately show ?thesis using len by simp
qed

subsection \<open>C10: removal before rewriting\<close>

text \<open>
  Claim C10. Let \<open>generate_lualib_bundle\<close> be false, \<open>custom_lualib_bundle_name\<close> a
  non-empty string \<open>N\<close> without \<open>$\<close>, \<open>outDir\<close> given, and let at most one entry of the
  result list be \<open>lualib_bundle.lua\<close> in \<open>outDir\<close>. The removal part runs first: from
  a non-empty list it removes exactly one entry, and an empty list it leaves empty. Of the
  entries it leaves, the second part renames none, and in each one whose code starts with
  the line \<open>local ____lualib = require("lualib_bundle")\<close> it rewrites that line to name
  \<open>N\<close>; all other code is unchanged.
\<close>

theorem removal_then_rewrite:
  assumes "\<not> generate_lualib_bundle cfg"
      and "custom_lualib_bundle_name cfg = Some N" "N \<noteq> []" "CHR ''$'' \<notin> set N"
      and "outDir options = Some d" "d \<noteq> []"
      and "length (filter (is_lualib_bundle P (path_resolve P d)) result) \<le> 1"
  shows "\<exists>kept r. removal_step P cfg options result = Inr kept
           \<and> (result \<noteq> [] \<longrightarrow> Suc (length kept) = length result)
           \<and> (result = [] \<longrightarrow> kept = [])
           \<and> beforeEmit P cfg options result = Inr r \<and> length r = length kept
           \<and> (\<forall>i<length kept.
                 outputPath (r ! i) = outputPath (kept ! i)
                 \<and> code (r ! i) =
                     (if prefix lualib_require_line (code (kept ! i))
                      then require_template N
                           @ drop (length lualib_require_line) (code (kept ! i))
                      else code (kept ! i)))"
proof -
  let ?p = "is_lualib_bundle P (path_resolve P d)"
  let ?kept = "splice_js (findIndex ?p result) 1 result"
  let ?out = "map (\<lambda>f. f\<lparr>code := replace_require N (code f)\<rparr>) ?kept"
  from assms(1,5,6) have step: "removal_step P cfg options result = Inr ?kept"
    by (simp add: removal_step_def remove_lualib_bundle_def)
  have "length ?kept = length result - 1"
    by (rule length_splice_findIndex)
  then have len: "result \<noteq> [] \<longrightarrow> Suc (length ?kept) = length result"
      and empty: "result = [] \<longrightarrow> ?kept = []"
    by (cases result, simp_all)+
  from assms(7) have "tl (filter ?p result) = []"
    by (cases "filter ?p result") auto
  then have "filter ?p ?kept = []"
    by (simp add: filter_splice_findIndex)
  then have none: "\<forall>f\<in>set ?kept. \<not> ?p f"
    by (simp add: filter_empty_conv)
  with assms(2,3,5,6) have "rename_step P cfg options ?kept = Inr ?out"
    by (simp add: rename_step_def rename_loop_no_bundle)
  with step have run: "beforeEmit P cfg options result = Inr ?out"
    by (simp add: beforeEmit_def)
  have props: "\<forall>i<length ?kept.
          outputPath (?out ! i) = outputPath (?kept ! i)
          \<and> code (?out ! i) =
              (if prefix lualib_require_line (code (?kept ! i))
               then require_template N @ drop (length lualib_require_line) (code (?kept ! i))
               else code (?kept ! i))"
    using assms(4) by (simp add: replace_require_plain)
  show ?thesis
    by (rule exI [of _ ?kept], rule exI [of _ ?out]) (use step len empty run props in simp)
qed

theorem removal_then_rewrite_witness:
  "\<exists>kept r. removal_step (posix ''/proj'') cfg_remove_rename ex_options
               [ex_bundle, ex_main, ex_util] = Inr kept
       \<and> ([ex_bundle, ex_main, ex_util] \<noteq> []
            \<longrightarrow> Suc (length kept) = length [ex_bundle, ex_main, ex_util])
       \<and> ([ex_bundle, ex_main, ex_util] = [] \<longrightarrow> kept = [])
       \<and> beforeEmit (posix ''/proj'') cfg_remove_rename ex_options
           [ex_bundle, ex_main, ex_util] = Inr r
       \<and> length r = length kept
       \<and> (\<forall>i<length kept.
             outputPath (r ! i) = outputPath (kept ! i)
             \<and> code (r ! i) =
                 (if prefix lualib_require_line (code (kept ! i))
                  then require_template ''foo''
                       @ drop (length lualib_require_line) (code (kept ! i))
                  else code (kept ! i)))"
proof (rule removal_then_rewrite)
  show "\<not> generate_lualib_bundle cfg_remove_rename" by code_simp
  show "custom_lualib_bundle_name cfg_remove_rename = Some ''foo''" by code_simp
  show "''foo'' \<noteq> []" by simp
  show "CHR ''$'' \<notin> set ''foo''" by simp
  show "outDir ex_options = Some ''/out''" by code_simp
  show "''/out'' \<noteq> []" by simp
  show "length (filter (is_lualib_bundle (posix ''/proj'')
                          (path_resolve (posix ''/proj'') ''/out''))
          [ex_bundle, ex_main, ex_util]) \<le> 1" by code_simp
qed

text \<open>
  Two entries that are \<open>/out/lualib_bundle.lua\<close>, and the name \<open>a$$b\<close>: the removal part
  leaves the second bundle, which the second part then renames; and the leading line of
  \<open>main.lua\<close> comes out naming \<open>a$b\<close>, as \<open>$$\<close> in a replacement text stands for
  \<open>$\<close>.
\<close>

theorem second_bundle_renamed_counterexample:
  \<open>\<not> generate_lualib_bundle cfg_remove_rename_dollar
   \<and> custom_lualib_bundle_name cfg_remove_rename_dollar = Some ''a$$b''
   \<and> removal_step (posix ''/proj'') cfg_remove_rename_dollar ex_options
        [ex_bundle, ex_bundle_copy, ex_main] = Inr [ex_bundle_copy, ex_main]
   \<and> beforeEmit (posix ''/proj'') cfg_remove_rename_dollar ex_options
        [ex_bundle, ex_bundle_copy, ex_main]
       = Inr [ex_bundle_copy\<lparr>outputPath := ''/out/a$$b.lua''\<rparr>,
              ex_main\<lparr>code := ''local ____lualib = require("a$b")'' @ [CHR 0x0A]
                               @ ''print(1)''\<rparr>]
   \<and> outputPath ex_bundle_copy \<noteq> ''/out/a$$b.lua''
   \<and> prefix lualib_require_line (code ex_main)
   \<and> ''local ____lualib = require("a$b")'' @ [CHR 0x0A] \<noteq> require_template ''a$$b''\<close>
  by code_simp

end
